theory Spec2Isabelle
  imports Complex_Main
begin

section \<open>Python exceptions raised by the modelled code\<close>

text \<open>
  The exceptions that the modelled statements of the repository can raise:
  \<^item> \<open>IndexError\<close>: \<open>Z[n_basis - 1]\<close> on an empty basis list;
  \<^item> \<open>ValueError\<close>: \<open>math.sqrt\<close> of a negative number, \<open>np.min\<close> of an empty array;
  \<^item> \<open>DivisionByZero\<close>: division by zero in a vector backend that raises on it;
  \<^item> \<open>AssertionError\<close>: a failed \<open>assert\<close>;
  \<^item> \<open>TypeError\<close>: calling the unbound method \<open>file.write\<close> of Python 2's built-in
    type \<open>file\<close> with a \<open>str\<close> as receiver;
  \<^item> \<open>NameError\<close>: the use of a global name that the module does not bind.
\<close>

datatype error =
  IndexError | ValueError | DivisionByZero | AssertionError | TypeError | NameError

section \<open>IEEE binary64 arithmetic\<close>

text \<open>
  A Python \<open>float\<close> and an entry of a numpy array of \<open>dtype float64\<close> are IEEE binary64
  numbers. \<open>fl\<close> rounds a real number to the nearest binary64 number, ties to even:
  53 significant bits, least exponent \<open>-1022\<close> (below it the spacing stays \<open>2^-1074\<close>),
  overflow to an infinity when the rounded value reaches \<open>2^1024\<close>. The sign of zero is
  not modelled: a zero is taken as \<open>+0.0\<close>. The operations round the exact result and
  treat infinities and nan as IEEE 754 does; numpy's division by zero does not raise.
\<close>

datatype float64 = Finite real | PosInf | NegInf | NaN

definition round_half_even :: "real \<Rightarrow> int" where
  "round_half_even m =
     (let f = \<lfloor>m\<rfloor>; r = m - of_int f
      in if r < 1 / 2 then f
         else if 1 / 2 < r then f + 1
         else if even f then f else f + 1)"

definition fl :: "real \<Rightarrow> float64" where
  "fl x =
     (let e = max \<lfloor>log 2 \<bar>x\<bar>\<rfloor> (- 1022);
          ulp = 2 powi (e - 52);
          q = of_int (round_half_even (x / ulp)) * ulp
      in if 2 powi 1024 \<le> \<bar>q\<bar> then (if 0 < x then PosInf else NegInf) else Finite q)"

text \<open>The sign of a binary64 number as \<open>-1\<close>, \<open>0\<close> or \<open>1\<close> (nan has none: \<open>0\<close>).\<close>

fun sign_f64 :: "float64 \<Rightarrow> int" where
  "sign_f64 (Finite x) = (if x < 0 then - 1 else if 0 < x then 1 else 0)"
| "sign_f64 PosInf = 1"
| "sign_f64 NegInf = - 1"
| "sign_f64 NaN = 0"

definition inf_of_sign :: "int \<Rightarrow> float64" where
  "inf_of_sign s = (if s = 0 then NaN else if 0 < s then PosInf else NegInf)"

fun f_neg :: "float64 \<Rightarrow> float64" where
  "f_neg (Finite x) = Finite (- x)"
| "f_neg PosInf = NegInf"
| "f_neg NegInf = PosInf"
| "f_neg NaN = NaN"

fun f_add :: "float64 \<Rightarrow> float64 \<Rightarrow> float64" where
  "f_add (Finite x) (Finite y) = fl (x + y)"
| "f_add NaN b = NaN"
| "f_add a NaN = NaN"
| "f_add PosInf NegInf = NaN"
| "f_add NegInf PosInf = NaN"
| "f_add PosInf b = PosInf"
| "f_add NegInf b = NegInf"
| "f_add a PosInf = PosInf"
| "f_add a NegInf = NegInf"

definition f_sub :: "float64 \<Rightarrow> float64 \<Rightarrow> float64" where
  "f_sub a b = f_add a (f_neg b)"

fun f_mul :: "float64 \<Rightarrow> float64 \<Rightarrow> float64" where
  "f_mul (Finite x) (Finite y) = fl (x * y)"
| "f_mul NaN b = NaN"
| "f_mul a NaN = NaN"
| "f_mul a b = inf_of_sign (sign_f64 a * sign_f64 b)"

fun f_div :: "float64 \<Rightarrow> float64 \<Rightarrow> float64" where
  "f_div (Finite x) (Finite y) =
     (if y \<noteq> 0 then fl (x / y) else inf_of_sign (sign_f64 (Finite x)))"
| "f_div NaN b = NaN"
| "f_div a NaN = NaN"
| "f_div (Finite x) b = Finite 0"
| "f_div a (Finite y) = inf_of_sign (sign_f64 a * (if y < 0 then - 1 else 1))"
| "f_div a b = NaN"

text \<open>
  \<open>math.sqrt\<close> on a \<open>float\<close>: the correctly rounded square root; \<open>ValueError\<close> (math domain
  error) below zero; nan and plus infinity are returned as they are.
\<close>

fun math_sqrt_f64 :: "float64 \<Rightarrow> error + float64" where
  "math_sqrt_f64 (Finite x) = (if x < 0 then Inl ValueError else Inr (fl (sqrt x)))"
| "math_sqrt_f64 PosInf = Inr PosInf"
| "math_sqrt_f64 NegInf = Inl ValueError"
| "math_sqrt_f64 NaN = Inr NaN"

section \<open>The offline stage of the reduced basis method\<close>

text \<open>
  Source: \<open>RBniCS/reduction_methods/elliptic_coercive_rb_reduction.py\<close>, class
  \<open>EllipticCoerciveRBBase\<close>. The module binds these global names: \<open>print_function\<close>, \<open>os\<close>,
  \<open>shutil\<close>, \<open>random\<close>, \<open>GramSchmidt\<close>, \<open>EllipticCoerciveBase\<close> (its imports) and
  \<open>EllipticCoerciveRBBase\<close> (the class it defines). The use of any other name that is
  not a built-in raises \<open>NameError\<close> when the statement is executed.
\<close>

definition module_globals :: "string list" where
  "module_globals =
     [''print_function'', ''os'', ''shutil'', ''random'', ''GramSchmidt'',
      ''EllipticCoerciveBase'', ''EllipticCoerciveRBBase'']"

definition global_name :: "string \<Rightarrow> error + unit" where
  "global_name x = (if x \<in> set module_globals then Inr () else Inl NameError)"

text \<open>
  The truth problem, the reduced problem and the base classes are not part of the
  modelled file; their calls are logged as steps, and those that return data the code
  uses are parameters (\<open>collaborators\<close>): \<open>get_delta c n m\<close> and \<open>get_delta_output c n m\<close>
  are the values of \<open>self.get_delta()\<close> and \<open>self.get_delta_output()\<close> after a reduced
  solve of dimension \<open>n\<close> at parameter \<open>m\<close>, \<open>compute_error c n m\<close> the pair returned by
  \<open>compute_error(n, True)\<close> at parameter \<open>m\<close>, \<open>random_random c k\<close> the value of the
  \<open>k\<close>-th call of \<open>random.random()\<close>, \<open>gram_schmidt c\<close> the effect of \<open>self.GS.apply\<close> on
  the basis, \<open>need_to_do_offline_stage c\<close> what the \<open>_init_offline\<close> of the base class
  would return, and \<open>error_estimation_folder c\<close> the attribute of that name of the
  reduced problem.
\<close>

datatype step =
    TruthSolve
  | ExportSolution nat
  | PostprocessSnapshot
  | Enrich
  | GramSchmidtApply
  | SaveBasis
  | IncrementN
  | BuildReducedOperators
  | ReducedSolve nat
  | BuildErrorEstimationMatrices
  | PrintFindNextMu
  | Greedy nat

text \<open>
  The attributes of the reduction method that \<open>offline\<close> and \<open>greedy\<close> read and write.
  \<open>N\<close> stands for both \<open>self.N\<close> and \<open>self.reduced_problem.N\<close>, \<open>Z\<close> for both \<open>self.Z\<close>
  and \<open>self.reduced_problem.Z\<close>, \<open>mu\<close> for the parameter shared with the truth problem.
  \<open>draws\<close> counts the calls of \<open>random.random()\<close> made so far; \<open>solved\<close> lists the
  parameters at which the truth problem was solved; \<open>post_processing\<close> lists the
  arguments \<open>(N, delta_max, munew)\<close> handed to \<open>save_greedy_post_processing_file\<close>;
  \<open>folders\<close> is the set of directories that exist.
\<close>

record ('mu, 'snap) reduction_method =
  mu :: 'mu
  N :: nat
  Nmax :: nat
  xi_train :: "'mu list"
  Z :: "'snap list"
  draws :: nat
  trace :: "step list"
  solved :: "'mu list"
  post_processing :: "(nat \<times> real \<times> 'mu) list"
  folders :: "string set"

record ('mu, 'snap) collaborators =
  need_to_do_offline_stage :: bool
  error_estimation_folder :: string
  truth_solve :: "'mu \<Rightarrow> 'snap"
  gram_schmidt :: "'snap list \<Rightarrow> error + 'snap list"
  get_delta :: "nat \<Rightarrow> 'mu \<Rightarrow> real"
  get_delta_output :: "nat \<Rightarrow> 'mu \<Rightarrow> real"
  compute_error :: "nat \<Rightarrow> 'mu \<Rightarrow> real \<times> real"
  random_random :: "nat \<Rightarrow> real"

text \<open>
  The loop of \<open>greedy\<close> (lines 175-181), with the locals \<open>delta_max\<close> and \<open>munew\<close> as
  the last two components. \<open>get_delta c n m\<close> is the value of \<open>self.get_delta()\<close> after
  \<open>self.setmu(m); self._solve(n)\<close>. Python's \<open>or\<close> and \<open>and\<close> short-circuit, so
  \<open>random.random()\<close> is called only when \<open>delta == delta_max\<close>.
\<close>

fun greedy_loop ::
  "('mu, 'snap) collaborators \<Rightarrow> 'mu list \<Rightarrow>
   ('mu, 'snap) reduction_method \<times> real \<times> 'mu option \<Rightarrow>
   ('mu, 'snap) reduction_method \<times> real \<times> 'mu option" where
  "greedy_loop c [] acc = acc"
| "greedy_loop c (m # ms) (st, delta_max, munew) =
     (let st1 = st\<lparr>mu := m\<rparr>;
          delta = get_delta c (N st1) m
      in if delta > delta_max then greedy_loop c ms (st1, delta, Some m)
         else if delta = delta_max then
           (let r = random_random c (draws st1);
                st2 = st1\<lparr>draws := Suc (draws st1)\<rparr>
            in if r \<ge> 1 / 2 then greedy_loop c ms (st2, delta, Some m)
               else greedy_loop c ms (st2, delta_max, munew))
         else greedy_loop c ms (st1, delta_max, munew))"

text \<open>
  Lines 173-184 of \<open>greedy\<close>: the loop, \<open>assert munew != None\<close> and \<open>self.setmu(munew)\<close>.
  The result holds the state after \<open>setmu\<close> and the locals \<open>delta_max\<close> and \<open>munew\<close>.
\<close>

definition greedy_select ::
  "('mu, 'snap) collaborators \<Rightarrow> ('mu, 'snap) reduction_method \<Rightarrow>
   error + (('mu, 'snap) reduction_method \<times> real \<times> 'mu)" where
  "greedy_select c st =
     (case greedy_loop c (xi_train st) (st, - 1, None) of
        (st1, delta_max, None) \<Rightarrow> Inl AssertionError
      | (st1, delta_max, Some m) \<Rightarrow> Inr (st1\<lparr>mu := m\<rparr>, delta_max, m))"

text \<open>
  \<open>greedy\<close> (lines 172-185). Line 185 calls \<open>save_greedy_post_processing_file\<close> by its
  bare name. The function of that name is a static method of the class, so the module
  does not bind the name and the call raises \<open>NameError\<close> before its arguments
  \<open>(self.N, delta_max, munew, self.post_processing_folder)\<close> are handed over.
\<close>

definition greedy ::
  "('mu, 'snap) collaborators \<Rightarrow> ('mu, 'snap) reduction_method \<Rightarrow>
   error + ('mu, 'snap) reduction_method" where
  "greedy c st =
     (case greedy_select c st of
        Inl e \<Rightarrow> Inl e
      | Inr (st2, delta_max, munew) \<Rightarrow>
         (case global_name ''save_greedy_post_processing_file'' of
            Inl e \<Rightarrow> Inl e
          | Inr u \<Rightarrow>
              Inr (st2\<lparr>trace := trace st2 @ [Greedy (N st2)],
                        post_processing :=
                          post_processing st2 @ [(N st2, delta_max, munew)]\<rparr>)))"

text \<open>One pass of the body of \<open>for run in range(self.Nmax)\<close> (lines 133-162).\<close>

definition offline_iteration ::
  "('mu, 'snap) collaborators \<Rightarrow> nat \<Rightarrow> ('mu, 'snap) reduction_method \<Rightarrow>
   error + ('mu, 'snap) reduction_method" where
  "offline_iteration c run st =
     (let snapshot = truth_solve c (mu st);
          st1 = st\<lparr>solved := solved st @ [mu st],
                    trace := trace st @ [TruthSolve, ExportSolution run, PostprocessSnapshot]\<rparr>;
          st2 = st1\<lparr>Z := Z st1 @ [snapshot], trace := trace st1 @ [Enrich]\<rparr>
      in case gram_schmidt c (Z st2) of
           Inl e \<Rightarrow> Inl e
         | Inr zs \<Rightarrow>
            (let st3 = st2\<lparr>Z := zs, trace := trace st2 @ [GramSchmidtApply, SaveBasis]\<rparr>;
                 st4 = st3\<lparr>N := N st3 + 1, trace := trace st3 @ [IncrementN]\<rparr>;
                 st5 = st4\<lparr>trace := trace st4 @
                         [BuildReducedOperators, ReducedSolve (N st4),
                          BuildErrorEstimationMatrices]\<rparr>;
                 st6 = (if N st5 < Nmax st5
                        then st5\<lparr>trace := trace st5 @ [PrintFindNextMu]\<rparr> else st5)
             in greedy c st6))"

fun offline_loop ::
  "('mu, 'snap) collaborators \<Rightarrow> nat list \<Rightarrow> ('mu, 'snap) reduction_method \<Rightarrow>
   error + ('mu, 'snap) reduction_method" where
  "offline_loop c [] st = Inr st"
| "offline_loop c (run # runs) st =
     (case offline_iteration c run st of
        Inl e \<Rightarrow> Inl e
      | Inr st' \<Rightarrow> offline_loop c runs st')"

text \<open>
  \<open>_init_offline\<close> (lines 104-119). Its first statement calls
  \<open>EllipticCoerciveReductionMethodBase._init_offline(self)\<close>; the module does not bind
  that name. What follows is the check of the error estimation folder, with its
  \<open>assert\<close>, and the creation of the folders \<open>snapshots\<close> and \<open>post_processing\<close>.
\<close>

definition init_offline ::
  "('mu, 'snap) collaborators \<Rightarrow> ('mu, 'snap) reduction_method \<Rightarrow>
   error + (bool \<times> ('mu, 'snap) reduction_method)" where
  "init_offline c st =
     (case global_name ''EllipticCoerciveReductionMethodBase'' of
        Inl e \<Rightarrow> Inl e
      | Inr u \<Rightarrow>
         (let need = need_to_do_offline_stage c
          in if error_estimation_folder c \<notin> folders st \<and> \<not> need then Inl AssertionError
             else Inr (need,
                       st\<lparr>folders := folders st \<union>
                            {error_estimation_folder c, ''snapshots'', ''post_processing''}\<rparr>)))"

text \<open>\<open>offline\<close> (lines 122-169).\<close>

definition offline ::
  "('mu, 'snap) collaborators \<Rightarrow> ('mu, 'snap) reduction_method \<Rightarrow>
   error + ('mu, 'snap) reduction_method" where
  "offline c st =
     (case init_offline c st of
        Inl e \<Rightarrow> Inl e
      | Inr (need, st0) \<Rightarrow>
          if \<not> need then Inr st0 else offline_loop c [0..<Nmax st0] st0)"

subsection \<open>The SCM-decorated reduction method\<close>

text \<open>
  Source: \<open>RBniCS/scm/reduction_methods/scm_decorated_reduction_method.py\<close>, lines 88-95.
  \<open>SCM_reduction_offline\<close> is \<open>self.SCM_reduction.offline()\<close>, which works on the shared
  truth problem and may leave any parameter in it; \<open>base_offline\<close> is the \<open>offline\<close> of
  the decorated class. \<open>tuple(list(self.truth_problem.mu))\<close> copies the parameter, so
  the saved value is not affected by what happens later; values are immutable here.
\<close>

definition scm_decorated_offline ::
  "(('mu, 'snap) reduction_method \<Rightarrow> error + ('mu, 'snap) reduction_method) \<Rightarrow>
   (('mu, 'snap) reduction_method \<Rightarrow> error + ('mu, 'snap) reduction_method) \<Rightarrow>
   ('mu, 'snap) reduction_method \<Rightarrow> error + ('mu, 'snap) reduction_method" where
  "scm_decorated_offline SCM_reduction_offline base_offline st =
     (let bak_first_mu = mu st
      in case SCM_reduction_offline st of
           Inl e \<Rightarrow> Inl e
         | Inr st1 \<Rightarrow> base_offline (st1\<lparr>mu := bak_first_mu\<rparr>))"

subsection \<open>The greedy post-processing files\<close>

text \<open>
  Source: \<open>save_greedy_post_processing_file\<close>, lines 269-274. The file system maps a
  path to the content of the file there. \<open>open(path, "a")\<close> creates an empty file when
  none exists and keeps the content otherwise. Both \<open>with\<close> blocks bind the opened file
  to \<open>outfile\<close> but call \<open>file.write(...)\<close>: \<open>file\<close> is Python 2's built-in file type (the
  module starts with a \<open>__future__\<close> import), and its method \<open>write\<close> called with a string
  in place of a file object raises \<open>TypeError\<close> after the argument has been evaluated.
  The exception leaves the first \<open>with\<close> block, which closes the file, and the second
  block is not reached. \<open>str_N\<close>, \<open>str_delta\<close> and \<open>str_mu\<close> stand for Python's \<open>str\<close>.
\<close>

type_synonym filesystem = "string \<Rightarrow> string option"

definition open_append :: "filesystem \<Rightarrow> string \<Rightarrow> filesystem" where
  "open_append fs path = (case fs path of None \<Rightarrow> fs(path \<mapsto> []) | Some content \<Rightarrow> fs)"

definition file_write :: "string \<Rightarrow> error + unit" where
  "file_write s = Inl TypeError"

definition save_greedy_post_processing_file ::
  "(nat \<Rightarrow> string) \<Rightarrow> (real \<Rightarrow> string) \<Rightarrow> ('mu \<Rightarrow> string) \<Rightarrow>
   nat \<Rightarrow> real \<Rightarrow> 'mu \<Rightarrow> string \<Rightarrow> filesystem \<Rightarrow> (error + unit) \<times> filesystem" where
  "save_greedy_post_processing_file str_N str_delta str_mu n delta_max mu_greedy directory fs =
     (let fs1 = open_append fs (directory @ ''/delta_max.txt'')
      in case file_write (str_N n @ '' '' @ str_delta delta_max) of
           Inl e \<Rightarrow> (Inl e, fs1)
         | Inr u \<Rightarrow>
            (let fs2 = open_append fs1 (directory @ ''/mu_greedy.txt'')
             in case file_write (str_mu mu_greedy) of
                  Inl e \<Rightarrow> (Inl e, fs2)
                | Inr u \<Rightarrow> (Inr (), fs2)))"

subsection \<open>Error analysis\<close>

text \<open>
  Source: \<open>error_analysis\<close>, lines 196-259. The first statement after the banner is
  \<open>error_u = np.zeros(...)\<close>; the module does not bind \<open>np\<close>. The six tables are numpy
  arrays of shape \<open>(N, len(xi_test))\<close>; they are modelled as functions of the index
  pair, and the loops only touch pairs inside the shape. The errors and bounds handed in
  by the collaborators are taken to be finite numbers. The statistics that follow the
  loops (lines 228-253) only print, but \<open>np.min\<close> of a row raises \<open>ValueError\<close> when the
  test set is empty.
\<close>

record error_analysis_tables =
  error_u :: "nat \<times> nat \<Rightarrow> real"
  delta_u :: "nat \<times> nat \<Rightarrow> real"
  effectivity_u :: "nat \<times> nat \<Rightarrow> float64"
  error_s :: "nat \<times> nat \<Rightarrow> real"
  delta_s :: "nat \<times> nat \<Rightarrow> real"
  effectivity_s :: "nat \<times> nat \<Rightarrow> float64"

definition np_zeros :: error_analysis_tables where
  "np_zeros =
     \<lparr>error_u = (\<lambda>ix. 0), delta_u = (\<lambda>ix. 0), effectivity_u = (\<lambda>ix. Finite 0),
      error_s = (\<lambda>ix. 0), delta_s = (\<lambda>ix. 0), effectivity_s = (\<lambda>ix. Finite 0)\<rparr>"

text \<open>The body of the inner loop (lines 218-226) at parameter \<open>m = xi_test[run]\<close>.\<close>

definition error_analysis_entry ::
  "('mu, 'snap) collaborators \<Rightarrow> 'mu \<Rightarrow> nat \<Rightarrow> nat \<Rightarrow>
   error_analysis_tables \<Rightarrow> error_analysis_tables" where
  "error_analysis_entry c m run n T =
     (let (current_error_u, current_error_s) = compute_error c (n + 1) m;
          T1 = T\<lparr>error_u := (error_u T)((n, run) := current_error_u)\<rparr>;
          T2 = T1\<lparr>delta_u := (delta_u T1)((n, run) := get_delta c (n + 1) m)\<rparr>;
          T3 = T2\<lparr>effectivity_u := (effectivity_u T2)
                  ((n, run) := f_div (Finite (delta_u T2 (n, run)))
                                     (Finite (error_u T2 (n, run))))\<rparr>;
          T4 = T3\<lparr>error_s := (error_s T3)((n, run) := current_error_s)\<rparr>;
          T5 = T4\<lparr>delta_s := (delta_s T4)((n, run) := get_delta_output c (n + 1) m)\<rparr>;
          T6 = T5\<lparr>effectivity_s := (effectivity_s T5)
                  ((n, run) := f_div (Finite (delta_s T5 (n, run)))
                                     (Finite (error_s T5 (n, run))))\<rparr>
      in T6)"

definition error_analysis ::
  "('mu, 'snap) collaborators \<Rightarrow> ('mu, 'snap) reduction_method \<Rightarrow> 'mu list \<Rightarrow>
   nat option \<Rightarrow> error + error_analysis_tables" where
  "error_analysis c st xi_test n_opt =
     (let n_dim = (case n_opt of None \<Rightarrow> N st | Some k \<Rightarrow> k)
      in case global_name ''np'' of
           Inl e \<Rightarrow> Inl e
         | Inr u \<Rightarrow>
            (let T = fold (\<lambda>run T. fold (\<lambda>n T. error_analysis_entry c (xi_test ! run) run n T)
                                       [0..<n_dim] T)
                          [0..<length xi_test] np_zeros
             in if 0 < n_dim \<and> xi_test = [] then Inl ValueError else Inr T))"

section \<open>Gram-Schmidt orthogonalization\<close>

text \<open>
  Source: \<open>RBniCS/backends/basic/gram_schmidt.py\<close>, class \<open>GramSchmidt\<close>. An object of the
  class holds the inner product matrix \<open>X\<close>, a backend and a wrapping; none of the three
  is in the source files, and \<open>apply\<close> uses them through four operations only:
  \<^item> \<open>transpose_X_times g u v\<close>: the number \<open>transpose(u)*X*v\<close>;
  \<^item> \<open>wrapping_projection_step g b z\<close>: the vector that
    \<open>wrapping.gram_schmidt_projection_step(b, X, z, transpose)\<close> returns;
  \<^item> \<open>math_sqrt g\<close>: \<open>math.sqrt\<close> on such a number, which may raise;
  \<^item> \<open>divide_in_place g b q\<close>: the vector \<open>b\<close> after \<open>b.vector()[:] /= q\<close>, where the
    vector type of the backend decides what a division by zero does.
\<close>

record ('v, 's) GramSchmidt =
  transpose_X_times :: "'v \<Rightarrow> 'v \<Rightarrow> 's"
  wrapping_projection_step :: "'v \<Rightarrow> 'v \<Rightarrow> 'v"
  math_sqrt :: "'s \<Rightarrow> error + 's"
  divide_in_place :: "'v \<Rightarrow> 's \<Rightarrow> error + 'v"

text \<open>
  The value of \<open>b\<close> after the loop \<open>for i in range(n_basis - 1)\<close> (lines 44-47) of a
  non-empty basis list.
\<close>

definition residual :: "('v, 's) GramSchmidt \<Rightarrow> 'v list \<Rightarrow> 'v" where
  "residual g Zs =
     (let n_basis = length Zs
      in fold (\<lambda>z b. wrapping_projection_step g b z)
              (take (n_basis - 1) Zs) (Zs ! (n_basis - 1)))"

text \<open>
  \<open>GramSchmidt.apply\<close> (lines 38-48). On an empty list \<open>Z[n_basis - 1]\<close> is \<open>Z[-1]\<close>, an
  \<open>IndexError\<close>. The projection step works in place on the last entry of \<open>Z\<close> and returns
  it (the spec: \<open>apply\<close> operates in place), so the division of line 48 changes that
  entry. There is no test of the size of \<open>transpose(b)*X*b\<close> before the division.
\<close>

definition GramSchmidt_apply :: "('v, 's) GramSchmidt \<Rightarrow> 'v list \<Rightarrow> error + 'v list" where
  "GramSchmidt_apply g Zs =
     (if Zs = [] then Inl IndexError
      else
        (let n_basis = length Zs;
             b = residual g Zs
         in case math_sqrt g (transpose_X_times g b b) of
              Inl e \<Rightarrow> Inl e
            | Inr q \<Rightarrow>
               (case divide_in_place g b q of
                  Inl e \<Rightarrow> Inl e
                | Inr b' \<Rightarrow> Inr (Zs[n_basis - 1 := b']))))"

subsection \<open>The operations in binary64 arithmetic\<close>

text \<open>
  Vectors with float64 entries, as numpy arrays are. \<open>form_f64 M u v\<close> is
  \<open>transpose(u)*M*v\<close>, computed as the inner product of \<open>u\<close> with the matrix-vector
  product, each sum taken from left to right starting at \<open>0.0\<close>. The in-place division
  of a numpy array divides entry by entry and does not raise.
\<close>

definition dot_f64 :: "float64 list \<Rightarrow> float64 list \<Rightarrow> float64" where
  "dot_f64 u v = foldl (\<lambda>acc (a, b). f_add acc (f_mul a b)) (Finite 0) (zip u v)"

definition matvec_f64 :: "float64 list list \<Rightarrow> float64 list \<Rightarrow> float64 list" where
  "matvec_f64 M v = map (\<lambda>row. dot_f64 row v) M"

definition form_f64 :: "float64 list list \<Rightarrow> float64 list \<Rightarrow> float64 list \<Rightarrow> float64" where
  "form_f64 M u v = dot_f64 u (matvec_f64 M v)"

text \<open>
  Modelled from the spec: \<open>wrapping.gram_schmidt_projection_step\<close>, which is not among
  the source files. The spec's projection step is
  \<open>b - (<b, Z_i>_X / <Z_i, Z_i>_X) * Z_i\<close>; here in binary64 arithmetic.
\<close>

definition gram_schmidt_projection_step_f64 ::
  "float64 list \<Rightarrow> float64 list list \<Rightarrow> float64 list \<Rightarrow> float64 list" where
  "gram_schmidt_projection_step_f64 b M z =
     map2 (\<lambda>bi zi. f_sub bi (f_mul (f_div (form_f64 M b z) (form_f64 M z z)) zi)) b z"

definition numpy_GramSchmidt ::
  "float64 list list \<Rightarrow> (float64 list, float64) GramSchmidt" where
  "numpy_GramSchmidt M =
     \<lparr>transpose_X_times = form_f64 M,
      wrapping_projection_step = (\<lambda>b z. gram_schmidt_projection_step_f64 b M z),
      math_sqrt = math_sqrt_f64,
      divide_in_place = (\<lambda>b q. Inr (map (\<lambda>x. f_div x q) b))\<rparr>"

subsection \<open>The operations in exact arithmetic\<close>

text \<open>
  The same operations on vectors of real numbers, without rounding: what the binary64
  operations approximate. \<open>form X u v\<close> is \<open>transpose(u)*X*v\<close>. A division by zero
  raises.
\<close>

type_synonym vec = "real list"
type_synonym matrix = "real list list"

definition dot :: "vec \<Rightarrow> vec \<Rightarrow> real" where
  "dot u v = sum_list (map2 (*) u v)"

definition matvec :: "matrix \<Rightarrow> vec \<Rightarrow> vec" where
  "matvec X v = map (\<lambda>row. dot row v) X"

definition form :: "matrix \<Rightarrow> vec \<Rightarrow> vec \<Rightarrow> real" where
  "form X u v = dot u (matvec X v)"

text \<open>
  Modelled from the spec: \<open>wrapping.gram_schmidt_projection_step\<close>, which is not among
  the source files. The spec's projection step is
  \<open>b - (<b, Z_i>_X / <Z_i, Z_i>_X) * Z_i\<close>; here in exact arithmetic.
\<close>

definition gram_schmidt_projection_step :: "vec \<Rightarrow> matrix \<Rightarrow> vec \<Rightarrow> vec" where
  "gram_schmidt_projection_step b X z =
     map2 (\<lambda>bi zi. bi - (form X b z / form X z z) * zi) b z"

definition exact_GramSchmidt :: "matrix \<Rightarrow> (vec, real) GramSchmidt" where
  "exact_GramSchmidt X =
     \<lparr>transpose_X_times = form X,
      wrapping_projection_step = (\<lambda>b z. gram_schmidt_projection_step b X z),
      math_sqrt = (\<lambda>s. if s < 0 then Inl ValueError else Inr (sqrt s)),
      divide_in_place =
        (\<lambda>b q. if q = 0 then Inl DivisionByZero else Inr (map (\<lambda>x. x / q) b))\<rparr>"

text \<open>
  \<open>orthonormal X zs\<close>: the Gram matrix of \<open>zs\<close> under \<open>X\<close> is the identity.
  \<open>well_formed d X zs\<close>: \<open>X\<close> is a symmetric \<open>d\<close> by \<open>d\<close> matrix and every vector has \<open>d\<close>
  entries.
\<close>

definition orthonormal :: "matrix \<Rightarrow> vec list \<Rightarrow> bool" where
  "orthonormal X zs =
     (\<forall>i < length zs. \<forall>j < length zs. form X (zs ! i) (zs ! j) = (if i = j then 1 else 0))"

definition well_formed :: "nat \<Rightarrow> matrix \<Rightarrow> vec list \<Rightarrow> bool" where
  "well_formed d X zs =
     (length X = d \<and> (\<forall>row \<in> set X. length row = d) \<and> (\<forall>v \<in> set zs. length v = d)
      \<and> (\<forall>i < d. \<forall>j < d. X ! i ! j = X ! j ! i))"

section \<open>The reduced mesh\<close>

text \<open>
  Modelled from the spec: the class \<open>ReducedMesh\<close> (\<open>RBniCS.backends.fenics\<close>), of which
  the source files hold only the test \<open>tests/unit/test_reduced_mesh.py\<close>. Section 4.3 of
  the spec: \<open>append\<close> of a tuple of degrees of freedom, one per function space, adds the
  cells touching each of them to the accumulated cell set, rebuilds the reduced function
  spaces on the accumulated cells and records the tuple and its reduced indices, in
  append order; it does nothing when the exact tuple was already added. \<open>touching k g\<close>
  is the set of cells touching degree of freedom \<open>g\<close> of the \<open>k\<close>-th function space and
  \<open>renumber cs k g\<close> its index in the \<open>k\<close>-th reduced space built on the cells \<open>cs\<close>.
\<close>

record reduced_mesh =
  cells :: "nat set"
  dofs_list :: "nat list list"
  reduced_dofs_list :: "nat list list"

definition reduced_mesh_append ::
  "(nat \<Rightarrow> nat \<Rightarrow> nat set) \<Rightarrow> (nat set \<Rightarrow> nat \<Rightarrow> nat \<Rightarrow> nat) \<Rightarrow>
   nat list \<Rightarrow> reduced_mesh \<Rightarrow> reduced_mesh" where
  "reduced_mesh_append touching renumber dofs rm =
     (if dofs \<in> set (dofs_list rm) then rm
      else
        (let cs = cells rm \<union> (\<Union>k \<in> {..<length dofs}. touching k (dofs ! k));
             ds = dofs_list rm @ [dofs]
         in \<lparr>cells = cs, dofs_list = ds,
             reduced_dofs_list = map (\<lambda>t. map2 (renumber cs) [0..<length t] t) ds\<rparr>))"

text \<open>
  The reduced mesh before the first \<open>append\<close>, and the consistency of a reduced mesh:
  the accumulated cell set holds every cell touching a recorded degree of freedom, and
  the reduced tuples are the recorded tuples renumbered on the accumulated cell set.
\<close>

definition empty_reduced_mesh :: reduced_mesh where
  "empty_reduced_mesh = \<lparr>cells = {}, dofs_list = [], reduced_dofs_list = []\<rparr>"

definition reduced_mesh_consistent ::
  "(nat \<Rightarrow> nat \<Rightarrow> nat set) \<Rightarrow> (nat set \<Rightarrow> nat \<Rightarrow> nat \<Rightarrow> nat) \<Rightarrow> reduced_mesh \<Rightarrow> bool" where
  "reduced_mesh_consistent touching renumber rm =
     ((\<forall>t \<in> set (dofs_list rm). \<forall>k < length t. touching k (t ! k) \<subseteq> cells rm)
      \<and> reduced_dofs_list rm =
          map (\<lambda>t. map2 (renumber (cells rm)) [0..<length t] t) (dofs_list rm))"

section \<open>Concrete instances\<close>

text \<open>
  A training set of three parameters with a tie, bounds \<open>m / (n + 1)\<close>, a random source
  that always draws \<open>0\<close>, and a Gram-Schmidt collaborator that succeeds.
\<close>

definition example_collaborators :: "(nat, nat) collaborators" where
  "example_collaborators =
     \<lparr>need_to_do_offline_stage = True,
      error_estimation_folder = ''error_estimation'',
      truth_solve = (\<lambda>m. m),
      gram_schmidt = Inr,
      get_delta = (\<lambda>n m. real m / real (n + 1)),
      get_delta_output = (\<lambda>n m. real m),
      compute_error = (\<lambda>n m. (0, real m)),
      random_random = (\<lambda>k. 0)\<rparr>"

definition example_method :: "(nat, nat) reduction_method" where
  "example_method =
     \<lparr>mu = 5, N = 0, Nmax = 2, xi_train = [1, 2, 2], Z = [], draws = 0,
      trace = [], solved = [], post_processing = [], folders = {}\<rparr>"

text \<open>The two by two identity matrix in binary64.\<close>

definition identity_f64 :: "float64 list list" where
  "identity_f64 = [[Finite 1, Finite 0], [Finite 0, Finite 1]]"

section \<open>Properties of the greedy step\<close>

lemma global_name_save [simp]:
  "global_name ''save_greedy_post_processing_file'' = Inl NameError"
  by (simp add: global_name_def module_globals_def)

lemma global_name_base_class [simp]:
  "global_name ''EllipticCoerciveReductionMethodBase'' = Inl NameError"
  by (simp add: global_name_def module_globals_def)

lemma global_name_np [simp]: "global_name ''np'' = Inl NameError"
  by (simp add: global_name_def module_globals_def)

lemma greedy_loop_frame:
  "greedy_loop c ms (st, d, mn) = (st', d', mn') \<Longrightarrow>
   st' = st\<lparr>mu := mu st', draws := draws st'\<rparr>"
proof (induction ms arbitrary: st d mn)
  case Nil
  then show ?case by simp
next
  case (Cons m ms)
  let ?st1 = "st\<lparr>mu := m\<rparr>"
  let ?st2 = "?st1\<lparr>draws := Suc (draws ?st1)\<rparr>"
  from Cons.prems consider
      (a) "greedy_loop c ms (?st1, get_delta c (N st) m, Some m) = (st', d', mn')"
    | (b) "greedy_loop c ms (?st2, get_delta c (N st) m, Some m) = (st', d', mn')"
    | (c) "greedy_loop c ms (?st2, d, mn) = (st', d', mn')"
    | (d) "greedy_loop c ms (?st1, d, mn) = (st', d', mn')"
    by (auto simp: Let_def split: if_splits)
  then show ?case
  proof cases
    case a
    from Cons.IH[OF a] show ?thesis by (cases st, cases st') auto
  next
    case b
    from Cons.IH[OF b] show ?thesis by (cases st, cases st') auto
  next
    case c
    from Cons.IH[OF c] show ?thesis by (cases st, cases st') auto
  next
    case d
    from Cons.IH[OF d] show ?thesis by (cases st, cases st') auto
  qed
qed

lemma greedy_loop_max:
  "greedy_loop c ms (st, d, mn) = (st', d', mn') \<Longrightarrow>
   d' = Max (insert d (get_delta c (N st) ` set ms))"
proof (induction ms arbitrary: st d mn)
  case Nil
  then show ?case by simp
next
  case (Cons m ms)
  let ?st1 = "st\<lparr>mu := m\<rparr>"
  let ?st2 = "?st1\<lparr>draws := Suc (draws ?st1)\<rparr>"
  let ?dl = "get_delta c (N st) m"
  let ?D = "get_delta c (N st) ` set ms"
  have fin: "finite ?D" by simp
  show ?case
  proof (cases "?dl > d")
    case True
    with Cons.prems have "greedy_loop c ms (?st1, ?dl, Some m) = (st', d', mn')"
      by (simp add: Let_def)
    from Cons.IH[OF this] have "d' = Max (insert ?dl ?D)" by simp
    also have "\<dots> = Max (insert d (insert ?dl ?D))"
    proof -
      have "?dl \<le> Max (insert ?dl ?D)" by (rule Max_ge) (use fin in auto)
      with True have "d \<le> Max (insert ?dl ?D)" by linarith
      then have "max d (Max (insert ?dl ?D)) = Max (insert ?dl ?D)" by (rule max_absorb2)
      moreover have "Max (insert d (insert ?dl ?D)) = max d (Max (insert ?dl ?D))"
        using fin by (intro Max_insert) auto
      ultimately show ?thesis by simp
    qed
    finally show ?thesis by simp
  next
    case False
    then have le: "?dl \<le> d" by simp
    from Cons.prems False have
      "greedy_loop c ms (?st2, d, Some m) = (st', d', mn') \<or>
       greedy_loop c ms (?st2, d, mn) = (st', d', mn') \<or>
       greedy_loop c ms (?st1, d, mn) = (st', d', mn')"
      by (auto simp: Let_def split: if_splits)
    then have "d' = Max (insert d ?D)"
      using Cons.IH by fastforce
    also have "\<dots> = Max (insert d (insert ?dl ?D))"
    proof -
      have "d \<le> Max (insert d ?D)" by (rule Max_ge) (use fin in auto)
      with le have "?dl \<le> Max (insert d ?D)" by linarith
      then have "max ?dl (Max (insert d ?D)) = Max (insert d ?D)" by (rule max_absorb2)
      moreover have "Max (insert ?dl (insert d ?D)) = max ?dl (Max (insert d ?D))"
        using fin by (intro Max_insert) auto
      ultimately show ?thesis by (simp add: insert_commute)
    qed
    finally show ?thesis by simp
  qed
qed


lemma greedy_loop_selected:
  "greedy_loop c ms (st, d, mn) = (st', d', mn') \<Longrightarrow>
   (\<forall>m. mn = Some m \<longrightarrow> m \<in> S \<and> get_delta c (N st) m = d) \<Longrightarrow>
   (\<forall>m. mn' = Some m \<longrightarrow> m \<in> S \<union> set ms \<and> get_delta c (N st) m = d')"
proof (induction ms arbitrary: st d mn S)
  case Nil
  then show ?case by simp
next
  case (Cons m ms)
  let ?st1 = "st\<lparr>mu := m\<rparr>"
  let ?st2 = "?st1\<lparr>draws := Suc (draws ?st1)\<rparr>"
  let ?dl = "get_delta c (N st) m"
  from Cons.prems(1) consider
      (new) st0 where "greedy_loop c ms (st0, ?dl, Some m) = (st', d', mn')" "N st0 = N st"
    | (old) st0 where "greedy_loop c ms (st0, d, mn) = (st', d', mn')" "N st0 = N st"
    by (auto simp: Let_def split: if_splits)
  then show ?case
  proof cases
    case new
    have "\<forall>x. Some m = Some x \<longrightarrow> x \<in> insert m S \<and> get_delta c (N st0) x = ?dl"
      using new(2) by simp
    from Cons.IH[OF new(1) this] show ?thesis using new(2) by auto
  next
    case old
    have "\<forall>x. mn = Some x \<longrightarrow> x \<in> insert m S \<and> get_delta c (N st0) x = d"
      using Cons.prems(2) old(2) by simp
    from Cons.IH[OF old(1) this] show ?thesis using old(2) by auto
  qed
qed

lemma greedy_loop_keeps_selection:
  "greedy_loop c ms (st, d, Some m0) = (st', d', mn') \<Longrightarrow> mn' \<noteq> None"
proof (induction ms arbitrary: st d m0)
  case Nil
  then show ?case by auto
next
  case (Cons m ms)
  from Cons.prems obtain st0 d0 m1 where
    "greedy_loop c ms (st0, d0, Some m1) = (st', d', mn')"
    by (auto simp: Let_def split: if_splits)
  then show ?case by (rule Cons.IH)
qed

lemma greedy_loop_tie:
  "get_delta c (N st) m = d \<Longrightarrow>
   greedy_loop c (m # ms) (st, d, mn) =
   greedy_loop c ms (st\<lparr>mu := m, draws := Suc (draws st)\<rparr>, d,
                     if random_random c (draws st) \<ge> 1 / 2 then Some m else mn)"
  by (simp add: Let_def)



text \<open>
  What lines 173-184 do before the call of line 185: on a non-empty training set whose
  bounds lie above the initial value \<open>-1.0\<close> of \<open>delta_max\<close>, a parameter with the
  greatest bound is selected and set as \<open>mu\<close>.
\<close>

lemma greedy_select_maximum:
  assumes ne: "xi_train st \<noteq> []"
    and pos: "\<forall>m \<in> set (xi_train st). - 1 < get_delta c (N st) m"
  shows "\<exists>m k. m \<in> set (xi_train st)
           \<and> get_delta c (N st) m = Max (get_delta c (N st) ` set (xi_train st))
           \<and> greedy_select c st =
               Inr (st\<lparr>mu := m, draws := k\<rparr>,
                    Max (get_delta c (N st) ` set (xi_train st)), m)"
proof -
  from ne obtain m1 rest where xs: "xi_train st = m1 # rest" by (cases "xi_train st") auto
  let ?dl = "get_delta c (N st)"
  let ?st1 = "st\<lparr>mu := m1\<rparr>"
  obtain st' d' mn' where run: "greedy_loop c rest (?st1, ?dl m1, Some m1) = (st', d', mn')"
    by (metis prod_cases3)
  have first: "greedy_loop c (xi_train st) (st, - 1, None) = (st', d', mn')"
    using pos xs run by (simp add: Let_def)
  from greedy_loop_keeps_selection[OF run] obtain m where mn': "mn' = Some m" by auto
  have d': "d' = Max (?dl ` set (xi_train st))"
    using greedy_loop_max[OF run] xs by simp
  have "\<forall>x. Some m1 = Some x \<longrightarrow> x \<in> {m1} \<and> get_delta c (N ?st1) x = ?dl m1" by simp
  from greedy_loop_selected[OF run this] mn'
  have sel: "m \<in> set (xi_train st)" "?dl m = d'" using xs by auto
  have fr: "st' = ?st1\<lparr>mu := mu st', draws := draws st'\<rparr>"
    by (rule greedy_loop_frame[OF run])
  have "greedy_select c st = Inr (st'\<lparr>mu := m\<rparr>, d', m)"
    using first mn' by (simp add: greedy_select_def)
  also have "st'\<lparr>mu := m\<rparr> = st\<lparr>mu := m, draws := draws st'\<rparr>"
    by (subst fr) simp
  finally have g: "greedy_select c st = Inr (st\<lparr>mu := m, draws := draws st'\<rparr>, d', m)" .
  show ?thesis
    by (rule exI[of _ m], rule exI[of _ "draws st'"]) (use g sel d' in simp)
qed

lemma greedy_raises:
  "\<exists>e. greedy c st = Inl e"
  by (cases "greedy_select c st") (auto simp: greedy_def)

text \<open>
  Claim C4. The claim asks that the greedy step returns the parameter of greatest
  bound and sets it as the next \<open>mu\<close>. On the training set \<open>[1, 2, 2]\<close> with the bounds
  \<open>1, 2, 2\<close> the code selects the parameter \<open>2\<close> with \<open>delta_max = 2\<close> (the tie is drawn
  once and keeps the incumbent) and sets it as \<open>mu\<close>, and then raises \<open>NameError\<close> at the
  call of \<open>save_greedy_post_processing_file\<close> instead of returning.
\<close>

theorem greedy_raises_NameError_after_selection:
  "greedy_select example_collaborators example_method
     = Inr (example_method\<lparr>mu := 2, draws := 1\<rparr>, 2, 2)
   \<and> greedy example_collaborators example_method = Inl NameError"
  by (simp add: greedy_def greedy_select_def example_collaborators_def example_method_def
        Let_def)

text \<open>
  Claim C7 (as amended). When the training set is empty the loop body never runs,
  \<open>munew\<close> is still \<open>None\<close>, and \<open>greedy\<close> fails at \<open>assert munew != None\<close> with an
  \<open>AssertionError\<close>; the code has no error type of its own for this case.
\<close>

theorem greedy_empty_training_set_asserts:
  "xi_train st = [] \<Longrightarrow> greedy c st = Inl AssertionError"
  by (simp add: greedy_def greedy_select_def)

theorem greedy_empty_training_set_asserts_witness:
  "xi_train (example_method\<lparr>xi_train := [], N := 3\<rparr>) = []
   \<and> greedy example_collaborators (example_method\<lparr>xi_train := [], N := 3\<rparr>) = Inl AssertionError"
  using greedy_empty_training_set_asserts
          [of "example_method\<lparr>xi_train := [], N := 3\<rparr>" example_collaborators]
  by simp

theorem greedy_empty_training_set_counterexample:
  "greedy example_collaborators (example_method\<lparr>xi_train := []\<rparr>) = Inl AssertionError"
  by (simp add: greedy_def greedy_select_def example_method_def)

section \<open>Properties of the offline stage\<close>

lemma offline_iteration_raises:
  "\<exists>e. offline_iteration c run st = Inl e"
  using greedy_raises
  by (cases "gram_schmidt c (Z st @ [truth_solve c (mu st)])")
     (auto simp: offline_iteration_def Let_def)

text \<open>
  Claim C3. The claim asks that a run of \<open>offline\<close> executes \<open>Nmax\<close> iterations, each
  ending with a greedy step. Every run of the code raises \<open>NameError\<close> in
  \<open>_init_offline\<close>, before the first iteration; and no pass of the loop body can end,
  since it raises at the latest in its greedy step.
\<close>

theorem offline_raises_NameError:
  "offline c st = Inl NameError \<and> (\<exists>e. offline_iteration c run st = Inl e)"
  using offline_iteration_raises[of c run st]
  by (simp add: offline_def init_offline_def)

section \<open>Properties of the SCM-decorated offline stage\<close>

text \<open>
  Claim C10. When the offline phase of the SCM reduction returns, the decorated
  \<open>offline\<close> is the base \<open>offline\<close> run on the state the SCM phase left, with the truth
  problem's \<open>mu\<close> set back to the value it had before the SCM phase. So the parameter
  that the SCM phase leaves has no effect on the base stage: an SCM phase that ends
  by setting \<open>mu\<close> to any other value gives the same result.
\<close>

theorem scm_decorated_offline_restores_mu:
  assumes scm: "SCM_reduction_offline st = Inr st1"
  shows "scm_decorated_offline SCM_reduction_offline base_offline st
           = base_offline (st1\<lparr>mu := mu st\<rparr>)
       \<and> mu (st1\<lparr>mu := mu st\<rparr>) = mu st
       \<and> scm_decorated_offline
           (\<lambda>s. case SCM_reduction_offline s of
                   Inl e \<Rightarrow> Inl e
                 | Inr s1 \<Rightarrow> Inr (s1\<lparr>mu := m'\<rparr>))
           base_offline st
         = scm_decorated_offline SCM_reduction_offline base_offline st"
  using scm by (simp add: scm_decorated_offline_def)

theorem scm_decorated_offline_restores_mu_witness:
  "(\<lambda>s. Inr (s\<lparr>mu := 99, N := 7\<rparr>)) example_method = Inr (example_method\<lparr>mu := 99, N := 7\<rparr>)
   \<and> scm_decorated_offline (\<lambda>s. Inr (s\<lparr>mu := 99, N := 7\<rparr>))
        (\<lambda>s. if mu s = 5 then Inr s else Inl AssertionError) example_method
       = Inr (example_method\<lparr>N := 7\<rparr>)"
proof -
  have scm: "(\<lambda>s. Inr (s\<lparr>mu := 99, N := 7\<rparr>)) example_method
               = Inr (example_method\<lparr>mu := 99, N := 7\<rparr>)"
    by simp
  from scm_decorated_offline_restores_mu
         [of "\<lambda>s. Inr (s\<lparr>mu := 99, N := 7\<rparr>)" example_method
             "example_method\<lparr>mu := 99, N := 7\<rparr>"
             "\<lambda>s. if mu s = 5 then Inr s else Inl AssertionError"]
       scm
  show ?thesis by (simp add: example_method_def)
qed

section \<open>Properties of the greedy post-processing files\<close>

lemma save_greedy_post_processing_file_raises:
  "save_greedy_post_processing_file str_N str_delta str_mu n delta_max mu_greedy directory fs
   = (Inl TypeError, open_append fs (directory @ ''/delta_max.txt''))"
  by (simp add: save_greedy_post_processing_file_def file_write_def)

text \<open>
  Claim C9. The claim asks that a call appends the record \<open><N> <delta_max>\<close> as a line
  of \<open>delta_max.txt\<close> and the record \<open><mu_greedy>\<close> as a line of \<open>mu_greedy.txt\<close>. At
  \<open>N = 1\<close>, \<open>delta_max = 0.5\<close>, \<open>mu_greedy = (1.0,)\<close> and an empty directory
  \<open>post_processing\<close> the code instead raises \<open>TypeError\<close> at the first
  \<open>file.write\<close>: \<open>delta_max.txt\<close> has been created and holds nothing, \<open>mu_greedy.txt\<close>
  does not exist.
\<close>

theorem save_greedy_post_processing_file_writes_no_record:
  "save_greedy_post_processing_file str_N str_delta str_mu 1 (1 / 2) [1 :: real]
     ''post_processing'' (\<lambda>path. None)
   = (Inl TypeError, (\<lambda>path. None)(''post_processing/delta_max.txt'' \<mapsto> []))"
  by (simp add: save_greedy_post_processing_file_def file_write_def open_append_def)

section \<open>Properties of the error analysis\<close>

text \<open>
  What the body of the inner loop stores for a true error of zero: the quotient of
  numpy, an infinity of the sign of the bound, or nan for a bound of zero.
\<close>

lemma error_analysis_entry_zero_error:
  assumes "fst (compute_error c (n + 1) m) = 0"
  shows "effectivity_u (error_analysis_entry c m run n T) (n, run)
         = inf_of_sign (sign_f64 (Finite (get_delta c (n + 1) m)))"
proof -
  obtain eu es where ce: "compute_error c (n + 1) m = (eu, es)"
    by (cases "compute_error c (n + 1) m")
  with assms have "eu = 0" by simp
  with ce show ?thesis
    by (simp add: error_analysis_entry_def Let_def)
qed

text \<open>
  Claim C8. The claim asks that, where the true error is zero, the effectivity is
  reported as an undefined sentinel and that the batch is not aborted. Every call of
  \<open>error_analysis\<close> raises \<open>NameError\<close> at \<open>np.zeros\<close>, before the first test
  parameter is looked at: nothing is reported and the batch is aborted.
\<close>

theorem error_analysis_raises_NameError:
  "error_analysis c st xi_test n_opt = Inl NameError"
  by (simp add: error_analysis_def Let_def)

section \<open>Properties of the binary64 arithmetic\<close>

lemma round_half_even_of_int: "round_half_even (of_int k) = k"
  by (simp add: round_half_even_def)

lemma fl_zero [simp]: "fl 0 = Finite 0"
proof -
  have "round_half_even 0 = 0"
    using round_half_even_of_int[of 0] by simp
  then show ?thesis
    unfolding fl_def Let_def by simp
qed

lemma log2_powi: "log 2 ((2::real) powi k) = of_int k"
proof -
  have "(2::real) powi k = 2 powr (of_int k)"
    by (simp add: powr_real_of_int')
  then show ?thesis by simp
qed

text \<open>A power of two from \<open>2^-1074\<close> on is a binary64 number, or overflows.\<close>

lemma fl_powi:
  assumes "- 1074 \<le> k"
  shows "fl (2 powi k) = (if 1024 \<le> k then PosInf else Finite (2 powi k))"
proof -
  define e where "e = max k (- 1022)"
  define n where "n = nat (k - (e - 52))"
  have nn: "0 \<le> k - (e - 52)" using assms by (simp add: e_def max_def)
  have abs_eq: "\<bar>(2::real) powi k\<bar> = 2 powi k" by simp
  have e: "max \<lfloor>log 2 \<bar>(2::real) powi k\<bar>\<rfloor> (- 1022) = e"
    unfolding abs_eq log2_powi e_def by simp
  have "(2::real) powi k / 2 powi (e - 52) = 2 powi (k - (e - 52))"
    by (simp add: power_int_diff)
  also have "\<dots> = of_int (2 ^ n)"
    using nn by (simp add: power_int_def n_def)
  finally have quot: "(2::real) powi k / 2 powi (e - 52) = of_int (2 ^ n)" .
  have nz: "(2::real) powi (e - 52) \<noteq> 0" by simp
  have prod: "of_int (2 ^ n) * (2::real) powi (e - 52) = 2 powi k"
    using quot nz by (simp add: field_simps)
  have q: "of_int (round_half_even ((2::real) powi k / 2 powi (e - 52))) * (2::real) powi (e - 52)
             = 2 powi k"
    unfolding quot round_half_even_of_int by (rule prod)
  have cmp: "((2::real) powi 1024 \<le> \<bar>2 powi k\<bar>) = (1024 \<le> k)"
  proof (cases "1024 \<le> k")
    case True
    then have "(2::real) powi 1024 \<le> 2 powi k" by (intro power_int_increasing) auto
    with True show ?thesis unfolding abs_eq by simp
  next
    case False
    then have "(2::real) powi k < 2 powi 1024" by (intro power_int_strict_increasing) auto
    with False show ?thesis unfolding abs_eq by simp
  qed
  have gt: "(0::real) < 2 powi k" by simp
  show ?thesis
    unfolding fl_def Let_def e q cmp using gt by simp
qed

lemma fl_one [simp]: "fl 1 = Finite 1"
  using fl_powi[of 0] by simp

lemma powi_times_powi: "(2::real) powi k * 2 powi k = 2 powi (2 * k)"
  using power_int_add[of "2::real" k k] by (simp flip: mult_2)

lemma sqrt_powi_double: "sqrt ((2::real) powi (2 * k)) = 2 powi k"
proof -
  have "(2::real) powi (2 * k) = (2 powi k)\<^sup>2"
    by (simp add: power2_eq_square powi_times_powi)
  then show ?thesis by simp
qed

section \<open>Properties of the Gram-Schmidt orthogonalization\<close>

lemma list_update_last:
  "Zs \<noteq> [] \<Longrightarrow> Zs[length Zs - 1 := b] = butlast Zs @ [b]"
  by (induction Zs rule: rev_induct) auto

lemma GramSchmidt_apply_nonempty:
  assumes "Zs \<noteq> []"
  shows "GramSchmidt_apply g Zs =
        (case math_sqrt g (transpose_X_times g (residual g Zs) (residual g Zs)) of
           Inl e \<Rightarrow> Inl e
         | Inr q \<Rightarrow>
            (case divide_in_place g (residual g Zs) q of
               Inl e \<Rightarrow> Inl e
             | Inr b' \<Rightarrow> Inr (butlast Zs @ [b'])))"
  using assms list_update_last[OF assms]
  by (simp add: GramSchmidt_apply_def Let_def split: sum.splits)

lemma residual_single: "length Zs = 1 \<Longrightarrow> residual g Zs = Zs ! 0"
  by (simp add: residual_def Let_def)

text \<open>
  A one-entry basis whose candidate is a power of two so large that its square
  overflows: the squared norm is plus infinity and the division leaves a zero entry.
\<close>

lemma numpy_GramSchmidt_apply_overflow:
  assumes "512 \<le> k" "k < 1024"
  shows "GramSchmidt_apply (numpy_GramSchmidt [[Finite 1]]) [[Finite (2 powi k)]]
         = Inr [[Finite 0]]"
proof -
  let ?g = "numpy_GramSchmidt [[Finite 1]]"
  let ?b = "[Finite (2 powi k)]"
  have ex: "fl (2 powi k) = Finite (2 powi k)"
    using assms by (simp add: fl_powi)
  have ov: "fl (2 powi (2 * k)) = PosInf"
    using assms by (simp add: fl_powi)
  have r: "residual ?g [?b] = ?b"
    by (simp add: residual_single)
  have mv: "matvec_f64 [[Finite 1]] ?b = ?b"
    by (simp add: matvec_f64_def dot_f64_def ex)
  have s: "transpose_X_times ?g ?b ?b = PosInf"
    by (simp add: numpy_GramSchmidt_def form_f64_def mv dot_f64_def powi_times_powi ov)
  have ms: "math_sqrt ?g = math_sqrt_f64" by (simp add: numpy_GramSchmidt_def)
  have dv: "divide_in_place ?g b q = Inr (map (\<lambda>x. f_div x q) b)" for b q
    by (simp add: numpy_GramSchmidt_def)
  show ?thesis
    by (simp add: GramSchmidt_apply_nonempty r s ms dv)
qed

text \<open>
  A two-entry basis under the identity matrix whose candidate \<open>(1, 2^k)\<close> is nearly
  parallel to the first entry \<open>(1, 0)\<close>: every operation is exact, the residual is
  \<open>(0, 2^k)\<close> with norm \<open>2^k\<close>, and it is normalized to \<open>(0, 1)\<close>.
\<close>

lemma numpy_GramSchmidt_apply_small_residual:
  assumes "- 537 \<le> k" "k < 512"
  shows "residual (numpy_GramSchmidt identity_f64)
           [[Finite 1, Finite 0], [Finite 1, Finite (2 powi k)]] = [Finite 0, Finite (2 powi k)]"
    and "transpose_X_times (numpy_GramSchmidt identity_f64)
           [Finite 0, Finite (2 powi k)] [Finite 0, Finite (2 powi k)] = Finite (2 powi (2 * k))"
    and "math_sqrt_f64 (Finite (2 powi (2 * k))) = Inr (Finite (2 powi k))"
    and "GramSchmidt_apply (numpy_GramSchmidt identity_f64)
           [[Finite 1, Finite 0], [Finite 1, Finite (2 powi k)]]
         = Inr [[Finite 1, Finite 0], [Finite 0, Finite 1]]"
proof -
  let ?g = "numpy_GramSchmidt identity_f64"
  let ?z = "[Finite 1, Finite 0]"
  let ?c = "[Finite 1, Finite (2 powi k)]"
  let ?r = "[Finite 0, Finite (2 powi k)]"
  have ex: "fl (2 powi k) = Finite (2 powi k)"
    using assms by (simp add: fl_powi)
  have ex2: "fl (2 powi (2 * k)) = Finite (2 powi (2 * k))"
    using assms by (simp add: fl_powi)
  have mz: "matvec_f64 identity_f64 ?z = ?z"
    by (simp add: matvec_f64_def dot_f64_def identity_f64_def)
  have fzz: "form_f64 identity_f64 ?z ?z = Finite 1"
    by (simp add: form_f64_def mz) (simp add: dot_f64_def)
  have fcz: "form_f64 identity_f64 ?c ?z = Finite 1"
    by (simp add: form_f64_def mz) (simp add: dot_f64_def)
  have step: "gram_schmidt_projection_step_f64 ?c identity_f64 ?z = ?r"
    by (simp add: gram_schmidt_projection_step_f64_def fzz fcz f_sub_def ex)
  show r: "residual ?g [?z, ?c] = ?r"
    by (simp add: residual_def Let_def numpy_GramSchmidt_def step)
  have mr: "matvec_f64 identity_f64 ?r = ?r"
    by (simp add: matvec_f64_def dot_f64_def identity_f64_def ex)
  show s: "transpose_X_times ?g ?r ?r = Finite (2 powi (2 * k))"
    by (simp add: numpy_GramSchmidt_def form_f64_def mr)
       (simp add: dot_f64_def powi_times_powi ex2)
  have nneg: "\<not> (2::real) powi (2 * k) < 0"
    by (simp add: not_less)
  show q: "math_sqrt_f64 (Finite (2 powi (2 * k))) = Inr (Finite (2 powi k))"
    using nneg by (simp add: sqrt_powi_double ex)
  have ms: "math_sqrt ?g = math_sqrt_f64" by (simp add: numpy_GramSchmidt_def)
  have dv: "divide_in_place ?g b q = Inr (map (\<lambda>x. f_div x q) b)" for b q
    by (simp add: numpy_GramSchmidt_def)
  show "GramSchmidt_apply ?g [?z, ?c] = Inr [?z, [Finite 0, Finite 1]]"
    by (simp add: GramSchmidt_apply_nonempty r s ms q dv del: math_sqrt_f64.simps)
qed

lemma dot_sum:
  "length u = length v \<Longrightarrow> dot u v = (\<Sum>i<length u. u ! i * v ! i)"
  by (simp add: dot_def sum_list_sum_nth atLeast0LessThan)

lemma length_matvec [simp]: "length (matvec X v) = length X"
  by (simp add: matvec_def)

lemma form_sum:
  assumes "length X = d" "\<forall>row \<in> set X. length row = d" "length u = d" "length v = d"
  shows "form X u v = (\<Sum>i<d. \<Sum>j<d. u ! i * (X ! i ! j * v ! j))"
proof -
  have "form X u v = (\<Sum>i<d. u ! i * matvec X v ! i)"
    using assms by (simp add: form_def dot_sum)
  also have "\<dots> = (\<Sum>i<d. u ! i * (\<Sum>j<d. X ! i ! j * v ! j))"
  proof (rule sum.cong)
    fix i assume "i \<in> {..<d}"
    then have i: "i < length X" using assms by simp
    then have "length (X ! i) = length v" using assms by simp
    then show "u ! i * matvec X v ! i = u ! i * (\<Sum>j<d. X ! i ! j * v ! j)"
      using i assms by (simp add: matvec_def dot_sum)
  qed simp
  finally show ?thesis by (simp add: sum_distrib_left)
qed

lemma form_sym:
  assumes "length X = d" "\<forall>row \<in> set X. length row = d" "length u = d" "length v = d"
    and sym: "\<forall>i < d. \<forall>j < d. X ! i ! j = X ! j ! i"
  shows "form X u v = form X v u"
proof -
  have "form X u v = (\<Sum>i<d. \<Sum>j<d. u ! i * (X ! i ! j * v ! j))"
    using assms by (intro form_sum) auto
  also have "\<dots> = (\<Sum>j<d. \<Sum>i<d. u ! i * (X ! i ! j * v ! j))"
    by (rule sum.swap)
  also have "\<dots> = (\<Sum>j<d. \<Sum>i<d. v ! j * (X ! j ! i * u ! i))"
    using sym by (intro sum.cong) (auto simp: mult_ac)
  also have "\<dots> = form X v u"
    using assms by (intro form_sum[symmetric]) auto
  finally show ?thesis .
qed

lemma dot_axpy:
  assumes "length u = length y" "length z = length y"
  shows "dot (map2 (\<lambda>a b. a - c * b) u z) y = dot u y - c * dot z y"
proof -
  have "dot (map2 (\<lambda>a b. a - c * b) u z) y = (\<Sum>i<length y. (u ! i - c * z ! i) * y ! i)"
    using assms by (simp add: dot_sum)
  also have "\<dots> = (\<Sum>i<length y. u ! i * y ! i) - c * (\<Sum>i<length y. z ! i * y ! i)"
    by (simp add: sum_subtractf sum_distrib_left algebra_simps)
  finally show ?thesis using assms by (simp add: dot_sum)
qed

lemma dot_scale:
  assumes "length u = length y"
  shows "dot (map (\<lambda>x. x / s) u) y = dot u y / s"
proof -
  have "dot (map (\<lambda>x. x / s) u) y = (\<Sum>i<length y. (u ! i / s) * y ! i)"
    using assms by (simp add: dot_sum)
  also have "\<dots> = (\<Sum>i<length y. u ! i * y ! i) / s"
    by (simp add: sum_divide_distrib)
  finally show ?thesis using assms by (simp add: dot_sum)
qed

lemma form_step_left:
  assumes "length b = length X" "length z = length X"
  shows "form X (gram_schmidt_projection_step b X z) w =
         form X b w - (form X b z / form X z z) * form X z w"
  unfolding form_def gram_schmidt_projection_step_def
  by (rule dot_axpy) (use assms in simp_all)

lemma form_scale_left:
  assumes "length b = length X"
  shows "form X (map (\<lambda>x. x / s) b) w = form X b w / s"
  using assms by (simp add: form_def dot_scale)

lemma length_step [simp]:
  "length (gram_schmidt_projection_step b X z) = min (length b) (length z)"
  by (simp add: gram_schmidt_projection_step_def)


lemma orthonormal_snoc:
  assumes "orthonormal X (ps @ [z])"
  shows "orthonormal X ps" and "form X z z = 1"
    and "\<forall>j < length ps. form X z (ps ! j) = 0"
proof -
  show "orthonormal X ps"
    unfolding orthonormal_def
  proof (intro allI impI)
    fix i j assume "i < length ps" "j < length ps"
    with assms[unfolded orthonormal_def, rule_format, of i j]
    show "form X (ps ! i) (ps ! j) = (if i = j then 1 else 0)"
      by (simp add: nth_append)
  qed
  from assms[unfolded orthonormal_def, rule_format, of "length ps" "length ps"]
  show "form X z z = 1" by simp
  show "\<forall>j < length ps. form X z (ps ! j) = 0"
  proof (intro allI impI)
    fix j assume "j < length ps"
    with assms[unfolded orthonormal_def, rule_format, of "length ps" j]
    show "form X z (ps ! j) = 0" by (simp add: nth_append)
  qed
qed

lemma projection_loop_orthogonal:
  assumes "length b = length X" "\<forall>p \<in> set ps. length p = length X" "orthonormal X ps"
  shows "length (fold (\<lambda>z b. gram_schmidt_projection_step b X z) ps b) = length X
       \<and> (\<forall>j < length ps.
            form X (fold (\<lambda>z b. gram_schmidt_projection_step b X z) ps b) (ps ! j) = 0)"
  using assms(2,3)
proof (induction ps rule: rev_induct)
  case Nil
  then show ?case using assms(1) by simp
next
  case (snoc z ps)
  let ?b1 = "fold (\<lambda>z b. gram_schmidt_projection_step b X z) ps b"
  let ?b2 = "gram_schmidt_projection_step ?b1 X z"
  note on = orthonormal_snoc[OF snoc.prems(2)]
  from snoc.prems(1) have lens: "\<forall>p \<in> set ps. length p = length X" and lz: "length z = length X"
    by auto
  from snoc.IH[OF lens on(1)] have l1: "length ?b1 = length X"
    and o1: "\<forall>j < length ps. form X ?b1 (ps ! j) = 0" by auto
  have fold_eq: "fold (\<lambda>z b. gram_schmidt_projection_step b X z) (ps @ [z]) b = ?b2" by simp
  have l2: "length ?b2 = length X" using l1 lz by simp
  have "form X ?b2 ((ps @ [z]) ! j) = 0" if "j < length (ps @ [z])" for j
  proof (cases "j < length ps")
    case True
    then show ?thesis
      using o1 on(3) by (simp add: form_step_left[OF l1 lz] nth_append)
  next
    case False
    with that have "j = length ps" by simp
    then show ?thesis
      using on(2) by (simp add: form_step_left[OF l1 lz])
  qed
  then show ?case unfolding fold_eq using l2 by blast
qed



lemma sqrt_16: "sqrt 16 = 4"
  by (rule real_sqrt_unique) simp_all

lemma residual_example:
  "residual (exact_GramSchmidt [[1, 0], [0, 1]]) [[1, 0], [3, 4]] = [0, 4]"
  by (simp add: residual_def exact_GramSchmidt_def gram_schmidt_projection_step_def form_def
        matvec_def dot_def)

lemma exact_GramSchmidt_apply_orthonormalizes:
  assumes wf: "well_formed d X Zs"
    and ne: "Zs \<noteq> []"
    and on: "orthonormal X (butlast Zs)"
    and nd: "0 < form X (residual (exact_GramSchmidt X) Zs) (residual (exact_GramSchmidt X) Zs)"
  shows "\<exists>b'. GramSchmidt_apply (exact_GramSchmidt X) Zs = Inr (butlast Zs @ [b'])
          \<and> b' = map (\<lambda>x. x / sqrt (form X (residual (exact_GramSchmidt X) Zs) (residual (exact_GramSchmidt X) Zs))) (residual (exact_GramSchmidt X) Zs)
          \<and> form X b' b' = 1
          \<and> (\<forall>i < length Zs - 1. form X b' (Zs ! i) = 0 \<and> form X (Zs ! i) b' = 0)
          \<and> orthonormal X (butlast Zs @ [b'])
          \<and> (\<forall>i < length Zs. \<forall>j < length Zs.
                \<bar>form X ((butlast Zs @ [b']) ! i) ((butlast Zs @ [b']) ! j)
                  - (if i = j then 1 else 0)\<bar> \<le> 1 / 10 ^ 10)
          \<and> (length Zs = 1 \<longrightarrow> residual (exact_GramSchmidt X) Zs = Zs ! 0)"
proof -
  let ?r = "residual (exact_GramSchmidt X) Zs"
  let ?s = "form X ?r ?r"
  let ?b = "map (\<lambda>x. x / sqrt ?s) ?r"
  let ?ps = "butlast Zs"
  from wf have lX: "length X = d" and rows: "\<forall>row \<in> set X. length row = d"
    and lens: "\<forall>v \<in> set Zs. length v = d"
    and sym: "\<forall>i < d. \<forall>j < d. X ! i ! j = X ! j ! i"
    by (auto simp: well_formed_def)
  have take_eq: "take (length Zs - 1) Zs = ?ps" by (simp add: butlast_conv_take)
  have last_eq: "Zs ! (length Zs - 1) = last Zs" using ne by (simp add: last_conv_nth)
  have r_def: "?r = fold (\<lambda>z b. gram_schmidt_projection_step b X z) ?ps (last Zs)"
    unfolding residual_def Let_def take_eq last_eq by (simp add: exact_GramSchmidt_def)
  have llast: "length (last Zs) = length X" using ne lens lX by simp
  have lps: "\<forall>p \<in> set ?ps. length p = length X"
    using lens lX by (auto dest: in_set_butlastD)
  from projection_loop_orthogonal[OF llast lps on]
  have lr: "length ?r = length X" and orth: "\<forall>j < length ?ps. form X ?r (?ps ! j) = 0"
    unfolding r_def by auto
  have sq: "sqrt ?s * sqrt ?s = ?s" using nd by simp
  have sq0: "sqrt ?s \<noteq> 0" using nd by simp
  have lb: "length ?b = d" using lr lX by simp
  have upd: "Zs[length Zs - 1 := ?b] = ?ps @ [?b]"
    using ne by (induction Zs rule: rev_induct) auto
  have app: "GramSchmidt_apply (exact_GramSchmidt X) Zs = Inr (?ps @ [?b])"
    using ne nd upd sq0 by (simp add: GramSchmidt_apply_def Let_def exact_GramSchmidt_def)
  have "form X ?b ?b = form X ?r ?b / sqrt ?s"
    by (rule form_scale_left[OF lr])
  also have "form X ?r ?b = form X ?b ?r"
    using lX rows lr lb sym by (intro form_sym[where d = d]) auto
  also have "form X ?b ?r = ?s / sqrt ?s"
    by (rule form_scale_left[OF lr])
  finally have unit: "form X ?b ?b = 1"
    using sq sq0 by (simp add: field_simps)
  have nth_ps: "?ps ! i = Zs ! i" if "i < length Zs - 1" for i
    using that by (simp add: nth_butlast)
  have left0: "form X ?b (Zs ! i) = 0" if "i < length Zs - 1" for i
    using orth that by (simp add: form_scale_left[OF lr] nth_ps)
  have right0: "form X (Zs ! i) ?b = 0" if "i < length Zs - 1" for i
  proof -
    have "length (Zs ! i) = d" using that lens by simp
    then have "form X (Zs ! i) ?b = form X ?b (Zs ! i)"
      using lX rows lb sym by (intro form_sym[where d = d]) auto
    then show ?thesis using left0[OF that] by simp
  qed
  have gram: "form X ((?ps @ [?b]) ! i) ((?ps @ [?b]) ! j) = (if i = j then 1 else 0)"
    if ij: "i < length Zs" "j < length Zs" for i j
  proof -
    consider (a) "i < length Zs - 1" "j < length Zs - 1"
      | (b) "i = length Zs - 1" "j < length Zs - 1"
      | (c) "i < length Zs - 1" "j = length Zs - 1"
      | (d) "i = length Zs - 1" "j = length Zs - 1"
      using ij by linarith
    then show ?thesis
    proof cases
      case a
      then show ?thesis
        using on[unfolded orthonormal_def, rule_format, of i j] by (simp add: nth_append)
    next
      case b
      then show ?thesis using left0[of j] by (simp add: nth_append nth_ps)
    next
      case c
      then show ?thesis using right0[of i] by (simp add: nth_append nth_ps)
    next
      case d
      then show ?thesis using unit by (simp add: nth_append)
    qed
  qed
  have on': "orthonormal X (?ps @ [?b])"
    unfolding orthonormal_def using gram ne by simp
  have tol: "\<forall>i < length Zs. \<forall>j < length Zs.
                \<bar>form X ((?ps @ [?b]) ! i) ((?ps @ [?b]) ! j)
                  - (if i = j then 1 else 0)\<bar> \<le> 1 / 10 ^ 10"
    using gram by simp
  have one: "length Zs = 1 \<longrightarrow> ?r = Zs ! 0"
    by (simp add: residual_def Let_def)
  show ?thesis
    using app unit left0 right0 on' tol one by (intro exI[of _ ?b]) simp
qed

text \<open>
  Claim C1 (as amended). On a non-empty basis list, with any matrix, backend and
  arithmetic, \<open>GramSchmidt.apply\<close> replaces only the last entry, by the residual of the
  projection steps divided by the square root of its squared \<open>X\<close>-norm (unless the
  square root or the division raises); with one entry the loop is not entered and the
  residual is the candidate itself. In exact arithmetic, for a symmetric \<open>X\<close>, earlier
  entries that are orthonormal under \<open>X\<close> and a residual of positive squared norm, the
  new entry has \<open>X\<close>-norm one and is \<open>X\<close>-orthogonal to every earlier entry, so the Gram
  matrix of the list is the identity. No tolerance is stated for binary64 arithmetic.
\<close>

theorem GramSchmidt_apply_replaces_last_entry:
  "(Zs \<noteq> [] \<longrightarrow>
      GramSchmidt_apply g Zs =
        (case math_sqrt g (transpose_X_times g (residual g Zs) (residual g Zs)) of
           Inl e \<Rightarrow> Inl e
         | Inr q \<Rightarrow>
            (case divide_in_place g (residual g Zs) q of
               Inl e \<Rightarrow> Inl e
             | Inr b' \<Rightarrow> Inr (butlast Zs @ [b']))))
   \<and> (length Zs = 1 \<longrightarrow> residual g Zs = Zs ! 0)
   \<and> (well_formed d X Rs \<and> Rs \<noteq> [] \<and> orthonormal X (butlast Rs)
        \<and> 0 < form X (residual (exact_GramSchmidt X) Rs) (residual (exact_GramSchmidt X) Rs)
      \<longrightarrow> (\<exists>b'. GramSchmidt_apply (exact_GramSchmidt X) Rs = Inr (butlast Rs @ [b'])
               \<and> b' = map (\<lambda>x. x / sqrt (form X (residual (exact_GramSchmidt X) Rs)
                                                   (residual (exact_GramSchmidt X) Rs)))
                            (residual (exact_GramSchmidt X) Rs)
               \<and> form X b' b' = 1
               \<and> (\<forall>i < length Rs - 1. form X b' (Rs ! i) = 0 \<and> form X (Rs ! i) b' = 0)
               \<and> orthonormal X (butlast Rs @ [b'])))"
proof (intro conjI impI)
  assume "Zs \<noteq> []"
  then show "GramSchmidt_apply g Zs =
        (case math_sqrt g (transpose_X_times g (residual g Zs) (residual g Zs)) of
           Inl e \<Rightarrow> Inl e
         | Inr q \<Rightarrow>
            (case divide_in_place g (residual g Zs) q of
               Inl e \<Rightarrow> Inl e
             | Inr b' \<Rightarrow> Inr (butlast Zs @ [b'])))"
    by (rule GramSchmidt_apply_nonempty)
next
  assume "length Zs = 1"
  then show "residual g Zs = Zs ! 0" by (rule residual_single)
next
  assume h: "well_formed d X Rs \<and> Rs \<noteq> [] \<and> orthonormal X (butlast Rs)
        \<and> 0 < form X (residual (exact_GramSchmidt X) Rs) (residual (exact_GramSchmidt X) Rs)"
  then have wf: "well_formed d X Rs" and ne: "Rs \<noteq> []" and on: "orthonormal X (butlast Rs)"
    and nd: "0 < form X (residual (exact_GramSchmidt X) Rs) (residual (exact_GramSchmidt X) Rs)"
    by simp_all
  from exact_GramSchmidt_apply_orthonormalizes[OF wf ne on nd]
  show "\<exists>b'. GramSchmidt_apply (exact_GramSchmidt X) Rs = Inr (butlast Rs @ [b'])
               \<and> b' = map (\<lambda>x. x / sqrt (form X (residual (exact_GramSchmidt X) Rs)
                                                   (residual (exact_GramSchmidt X) Rs)))
                            (residual (exact_GramSchmidt X) Rs)
               \<and> form X b' b' = 1
               \<and> (\<forall>i < length Rs - 1. form X b' (Rs ! i) = 0 \<and> form X (Rs ! i) b' = 0)
               \<and> orthonormal X (butlast Rs @ [b'])"
    by blast
qed

theorem GramSchmidt_apply_replaces_last_entry_witness:
  "well_formed 2 [[1, 0], [0, 1]] [[1, 0], [3, 4]]
   \<and> orthonormal [[1, 0], [0, 1]] (butlast [[1, 0], [3, 4]])
   \<and> GramSchmidt_apply (exact_GramSchmidt [[1, 0], [0, 1]]) [[1, 0], [3, 4]]
       = Inr [[1, 0], [0, 1]]
   \<and> orthonormal [[1, 0], [0, 1]] [[1, 0], [0, 1]]"
proof -
  have wf: "well_formed 2 [[1, 0], [0, 1]] [[1, 0], [3, 4]]"
    by (simp add: well_formed_def less_Suc_eq numeral_2_eq_2 nth_Cons')
  have ne: "[[1, 0], [3, 4 :: real]] \<noteq> []" by simp
  have on: "orthonormal [[1, 0], [0, 1]] (butlast [[1, 0], [3, 4]])"
    by (simp add: orthonormal_def form_def matvec_def dot_def)
  have s: "form [[1, 0], [0, 1]] [0, 4] [0, 4] = 16"
    by (simp add: form_def matvec_def dot_def)
  have nd: "0 < form [[1, 0], [0, 1]]
                  (residual (exact_GramSchmidt [[1, 0], [0, 1]]) [[1, 0], [3, 4]])
                  (residual (exact_GramSchmidt [[1, 0], [0, 1]]) [[1, 0], [3, 4]])"
    unfolding residual_example s by simp
  from GramSchmidt_apply_replaces_last_entry
         [where d = 2 and X = "[[1, 0], [0, 1]]" and Rs = "[[1, 0], [3, 4]]"]
       wf ne on nd
  have "\<exists>b'. GramSchmidt_apply (exact_GramSchmidt [[1, 0], [0, 1]]) [[1, 0], [3, 4]]
               = Inr (butlast [[1, 0], [3, 4]] @ [b'])
             \<and> b' = map (\<lambda>x. x / sqrt (form [[1, 0], [0, 1]]
                      (residual (exact_GramSchmidt [[1, 0], [0, 1]]) [[1, 0], [3, 4]])
                      (residual (exact_GramSchmidt [[1, 0], [0, 1]]) [[1, 0], [3, 4]])))
                   (residual (exact_GramSchmidt [[1, 0], [0, 1]]) [[1, 0], [3, 4]])
             \<and> orthonormal [[1, 0], [0, 1]] (butlast [[1, 0], [3, 4]] @ [b'])"
    by blast
  then show ?thesis
    using wf on unfolding residual_example s sqrt_16 by simp
qed

theorem GramSchmidt_apply_overflow_counterexample:
  "GramSchmidt_apply (numpy_GramSchmidt [[Finite 1]]) [[Finite (2 powi 700)]]
     = Inr [[Finite 0]]
   \<and> form_f64 [[Finite 1]] [Finite 0] [Finite 0] = Finite 0"
proof -
  have "GramSchmidt_apply (numpy_GramSchmidt [[Finite 1]]) [[Finite (2 powi 700)]]
          = Inr [[Finite 0]]"
    by (rule numpy_GramSchmidt_apply_overflow) simp_all
  moreover have "form_f64 [[Finite 1]] [Finite 0] [Finite 0] = Finite 0"
    by (simp add: form_f64_def matvec_f64_def dot_f64_def)
  ultimately show ?thesis by (rule conjI)
qed

text \<open>
  Claim C2 (as amended). \<open>GramSchmidt.apply\<close> consults no tolerance and has no error
  for a degenerate candidate. On a non-empty basis it fails only where \<open>math.sqrt\<close> or
  the in-place division of the backend raises; with numpy vectors in binary64 that is
  the \<open>ValueError\<close> of \<open>math.sqrt\<close> alone. In every other case, whatever the size of the
  residual's \<open>X\<close>-norm, the residual is divided by the square root of its squared norm
  and the basis keeps the new entry.
\<close>

theorem GramSchmidt_apply_has_no_degeneracy_check:
  assumes "Zs \<noteq> []" and "Fs \<noteq> []"
  shows "((\<exists>e. GramSchmidt_apply g Zs = Inl e
            \<and> (math_sqrt g (transpose_X_times g (residual g Zs) (residual g Zs)) = Inl e
               \<or> (\<exists>q. math_sqrt g (transpose_X_times g (residual g Zs) (residual g Zs)) = Inr q
                       \<and> divide_in_place g (residual g Zs) q = Inl e)))
          \<or> (\<exists>q b'. math_sqrt g (transpose_X_times g (residual g Zs) (residual g Zs)) = Inr q
                \<and> divide_in_place g (residual g Zs) q = Inr b'
                \<and> GramSchmidt_apply g Zs = Inr (butlast Zs @ [b'])))
       \<and> (GramSchmidt_apply (numpy_GramSchmidt M) Fs = Inl ValueError
          \<or> (\<exists>q. math_sqrt_f64 (form_f64 M (residual (numpy_GramSchmidt M) Fs)
                                           (residual (numpy_GramSchmidt M) Fs)) = Inr q
                \<and> GramSchmidt_apply (numpy_GramSchmidt M) Fs
                    = Inr (butlast Fs @
                        [map (\<lambda>x. f_div x q) (residual (numpy_GramSchmidt M) Fs)])))"
proof (rule conjI)
  show "(\<exists>e. GramSchmidt_apply g Zs = Inl e
            \<and> (math_sqrt g (transpose_X_times g (residual g Zs) (residual g Zs)) = Inl e
               \<or> (\<exists>q. math_sqrt g (transpose_X_times g (residual g Zs) (residual g Zs)) = Inr q
                       \<and> divide_in_place g (residual g Zs) q = Inl e)))
          \<or> (\<exists>q b'. math_sqrt g (transpose_X_times g (residual g Zs) (residual g Zs)) = Inr q
                \<and> divide_in_place g (residual g Zs) q = Inr b'
                \<and> GramSchmidt_apply g Zs = Inr (butlast Zs @ [b']))"
    unfolding GramSchmidt_apply_nonempty[OF assms(1)]
    by (auto split: sum.splits)
next
  let ?g = "numpy_GramSchmidt M"
  let ?s = "form_f64 M (residual ?g Fs) (residual ?g Fs)"
  have ms: "math_sqrt ?g = math_sqrt_f64" by (simp add: numpy_GramSchmidt_def)
  have tx: "transpose_X_times ?g = form_f64 M" by (simp add: numpy_GramSchmidt_def)
  have dv: "divide_in_place ?g b q = Inr (map (\<lambda>x. f_div x q) b)" for b q
    by (simp add: numpy_GramSchmidt_def)
  have "math_sqrt_f64 ?s = Inl ValueError \<or> (\<exists>q. math_sqrt_f64 ?s = Inr q)"
    by (cases ?s) auto
  then show "GramSchmidt_apply ?g Fs = Inl ValueError
          \<or> (\<exists>q. math_sqrt_f64 ?s = Inr q
                \<and> GramSchmidt_apply ?g Fs
                    = Inr (butlast Fs @ [map (\<lambda>x. f_div x q) (residual ?g Fs)]))"
    unfolding GramSchmidt_apply_nonempty[OF assms(2)] ms tx dv
    by auto
qed

theorem GramSchmidt_apply_has_no_degeneracy_check_witness:
  "math_sqrt_f64 (form_f64 identity_f64
       (residual (numpy_GramSchmidt identity_f64)
          [[Finite 1, Finite 0], [Finite 1, Finite (2 powi (- 30))]])
       (residual (numpy_GramSchmidt identity_f64)
          [[Finite 1, Finite 0], [Finite 1, Finite (2 powi (- 30))]]))
     = Inr (Finite (2 powi (- 30)))
   \<and> GramSchmidt_apply (numpy_GramSchmidt identity_f64)
        [[Finite 1, Finite 0], [Finite 1, Finite (2 powi (- 30))]]
       = Inr [[Finite 1, Finite 0], [Finite 0, Finite 1]]"
proof -
  let ?g = "numpy_GramSchmidt identity_f64"
  let ?Fs = "[[Finite 1, Finite 0], [Finite 1, Finite (2 powi (- 30))]]"
  have ne: "?Fs \<noteq> []" by simp
  have k: "- 537 \<le> (- 30 :: int)" "(- 30 :: int) < 512" by simp_all
  note ev = numpy_GramSchmidt_apply_small_residual[OF k]
  have tx: "transpose_X_times ?g = form_f64 identity_f64" by (simp add: numpy_GramSchmidt_def)
  have q: "math_sqrt_f64 (form_f64 identity_f64 (residual ?g ?Fs) (residual ?g ?Fs))
             = Inr (Finite (2 powi (- 30)))"
    using ev(2) ev(3) unfolding ev(1) tx by simp
  from GramSchmidt_apply_has_no_degeneracy_check[OF ne ne, of ?g identity_f64]
  have "GramSchmidt_apply ?g ?Fs = Inl ValueError
          \<or> (\<exists>q. math_sqrt_f64 (form_f64 identity_f64 (residual ?g ?Fs) (residual ?g ?Fs)) = Inr q
                \<and> GramSchmidt_apply ?g ?Fs
                    = Inr (butlast ?Fs @ [map (\<lambda>x. f_div x q) (residual ?g ?Fs)]))"
    by (rule conjunct2)
  with q ev(4) show ?thesis by simp
qed

theorem GramSchmidt_apply_small_residual_counterexample:
  "residual (numpy_GramSchmidt identity_f64)
       [[Finite 1, Finite 0], [Finite 1, Finite (2 powi (- 20))]]
     = [Finite 0, Finite (2 powi (- 20))]
   \<and> math_sqrt_f64 (form_f64 identity_f64 [Finite 0, Finite (2 powi (- 20))]
                                           [Finite 0, Finite (2 powi (- 20))])
       = Inr (Finite (2 powi (- 20)))
   \<and> GramSchmidt_apply (numpy_GramSchmidt identity_f64)
        [[Finite 1, Finite 0], [Finite 1, Finite (2 powi (- 20))]]
       = Inr [[Finite 1, Finite 0], [Finite 0, Finite 1]]"
proof -
  let ?g = "numpy_GramSchmidt identity_f64"
  have k: "- 537 \<le> (- 20 :: int)" "(- 20 :: int) < 512" by simp_all
  note ev = numpy_GramSchmidt_apply_small_residual[OF k]
  have tx: "transpose_X_times ?g = form_f64 identity_f64" by (simp add: numpy_GramSchmidt_def)
  have "math_sqrt_f64 (form_f64 identity_f64 [Finite 0, Finite (2 powi (- 20))]
                                           [Finite 0, Finite (2 powi (- 20))])
       = Inr (Finite (2 powi (- 20)))"
    using ev(2) ev(3) unfolding tx by simp
  with ev(1) ev(4) show ?thesis by simp
qed

section \<open>Properties of the reduced mesh\<close>

lemma reduced_mesh_append_recorded:
  "dofs \<in> set (dofs_list (reduced_mesh_append touching renumber dofs rm))"
  by (simp add: reduced_mesh_append_def Let_def)

lemma reduced_mesh_append_known:
  "dofs \<in> set (dofs_list rm) \<Longrightarrow> reduced_mesh_append touching renumber dofs rm = rm"
  by (simp add: reduced_mesh_append_def)

lemma reduced_mesh_consistent_empty:
  "reduced_mesh_consistent touching renumber empty_reduced_mesh"
  by (simp add: reduced_mesh_consistent_def empty_reduced_mesh_def)

lemma reduced_mesh_consistent_append:
  assumes "reduced_mesh_consistent touching renumber rm"
  shows "reduced_mesh_consistent touching renumber (reduced_mesh_append touching renumber dofs rm)"
proof (cases "dofs \<in> set (dofs_list rm)")
  case True
  then show ?thesis using assms by (simp add: reduced_mesh_append_known)
next
  case False
  then show ?thesis
    using assms
    by (fastforce simp: reduced_mesh_consistent_def reduced_mesh_append_def Let_def)
qed

text \<open>
  Claim C6. Appending a tuple of degrees of freedom that was already appended leaves
  the reduced mesh as it is: the list of tuples, the list of reduced tuples and the
  accumulated cell set are unchanged, in length and in content. So appending a tuple
  twice leaves what appending it once leaves. In a reduced mesh built by \<open>append\<close> alone
  the accumulated cell set already holds every cell that a recorded tuple touches.
\<close>

theorem reduced_mesh_append_idempotent:
  "(dofs \<in> set (dofs_list rm) \<longrightarrow>
      dofs_list (reduced_mesh_append touching renumber dofs rm) = dofs_list rm
      \<and> reduced_dofs_list (reduced_mesh_append touching renumber dofs rm) = reduced_dofs_list rm
      \<and> cells (reduced_mesh_append touching renumber dofs rm) = cells rm)
   \<and> reduced_mesh_append touching renumber dofs (reduced_mesh_append touching renumber dofs rm)
       = reduced_mesh_append touching renumber dofs rm
   \<and> (reduced_mesh_consistent touching renumber rm \<and> dofs \<in> set (dofs_list rm) \<longrightarrow>
        cells rm \<union> (\<Union>k \<in> {..<length dofs}. touching k (dofs ! k)) = cells rm)"
proof -
  have "cells rm \<union> (\<Union>k \<in> {..<length dofs}. touching k (dofs ! k)) = cells rm"
    if "reduced_mesh_consistent touching renumber rm" "dofs \<in> set (dofs_list rm)"
    using that by (auto simp: reduced_mesh_consistent_def)
  moreover have "reduced_mesh_append touching renumber dofs
                   (reduced_mesh_append touching renumber dofs rm)
                 = reduced_mesh_append touching renumber dofs rm"
    by (rule reduced_mesh_append_known) (rule reduced_mesh_append_recorded)
  ultimately show ?thesis
    by (auto simp: reduced_mesh_append_known)
qed

theorem reduced_mesh_append_idempotent_witness:
  "[1, 2] \<in> set (dofs_list
       (reduced_mesh_append (\<lambda>k g. {g div 2}) (\<lambda>cs k g. g) [1, 2] empty_reduced_mesh))
   \<and> dofs_list (reduced_mesh_append (\<lambda>k g. {g div 2}) (\<lambda>cs k g. g) [1, 2]
       (reduced_mesh_append (\<lambda>k g. {g div 2}) (\<lambda>cs k g. g) [1, 2] empty_reduced_mesh))
     = [[1, 2]]
   \<and> cells (reduced_mesh_append (\<lambda>k g. {g div 2}) (\<lambda>cs k g. g) [1, 2]
       (reduced_mesh_append (\<lambda>k g. {g div 2}) (\<lambda>cs k g. g) [1, 2] empty_reduced_mesh))
     = {0, 1}"
proof -
  let ?A = "reduced_mesh_append (\<lambda>k g. {g div 2}) (\<lambda>cs k g. g) [1, 2]"
  have once: "?A empty_reduced_mesh =
      \<lparr>cells = {0, 1}, dofs_list = [[1, 2]], reduced_dofs_list = [[1, 2]]\<rparr>"
    by (auto simp: reduced_mesh_append_def empty_reduced_mesh_def Let_def lessThan_Suc
          numeral_2_eq_2 upt_rec)
  from reduced_mesh_append_idempotent
         [where dofs = "[1, 2]" and rm = "?A empty_reduced_mesh"
            and touching = "\<lambda>k g. {g div 2}" and renumber = "\<lambda>cs k g. g"]
  show ?thesis unfolding once by simp
qed

end
